theory Spec2Isabelle
  imports Main "HOL-Library.Word"
begin

section \<open>Root package: errors, key/value items, AsMap\<close>

text \<open>
  The two error kinds of \<^verbatim>\<open>errors.go\<close>. \<open>FailedToCastEntryError\<close> carries an
  optional cause and has no \<^verbatim>\<open>Unwrap\<close> method. \<open>OtherError\<close> stands for any error value
  that does not come from this package (a fetcher may return one).
\<close>

datatype error =
    MissingEntryError string
  | FailedToCastEntryError string "error option"
  | OtherError string

definition NewMissingEntryError :: "string \<Rightarrow> error" where
  "NewMissingEntryError key = MissingEntryError key"

definition NewFailedToCastEntryError :: "string \<Rightarrow> error option \<Rightarrow> error" where
  "NewFailedToCastEntryError key err = FailedToCastEntryError key err"

text \<open>
  \<^verbatim>\<open>errors.As(err, &missingEntryError)\<close>: true when the chain of \<open>err\<close> holds a
  \<open>MissingEntryError\<close>. \<open>FailedToCastEntryError\<close> cannot be unwrapped, so its chain is
  itself. The cache only applies it to what \<open>get\<close> returns.
\<close>

fun errors_As_MissingEntryError :: "error \<Rightarrow> bool" where
  "errors_As_MissingEntryError (MissingEntryError key) = True"
| "errors_As_MissingEntryError (FailedToCastEntryError key err) = False"
| "errors_As_MissingEntryError (OtherError msg) = False"

record 'a StorageItemMulti =
  Key :: string
  Value :: 'a

text \<open>\<^verbatim>\<open>AsMap\<close>: the loop assigns \<open>m[v.Key] = v.Value\<close> for each element in order.\<close>

fun AsMap_loop :: "(string \<rightharpoonup> 'a) \<Rightarrow> 'a StorageItemMulti list \<Rightarrow> (string \<rightharpoonup> 'a)" where
  "AsMap_loop m [] = m"
| "AsMap_loop m (v # xs) = AsMap_loop (m(Key v \<mapsto> Value v)) xs"

definition AsMap :: "'a StorageItemMulti list \<Rightarrow> (string \<rightharpoonup> 'a)" where
  "AsMap xs = AsMap_loop Map.empty xs"

section \<open>Time, the TTL envelope and the backend store\<close>

text \<open>
  The \<^verbatim>\<open>time\<close> package is not part of the repository. An instant is a count of
  nanoseconds on the clock that \<^verbatim>\<open>time.Now()\<close> reads, a \<^verbatim>\<open>time.Duration\<close> is a signed
  64-bit count of nanoseconds, \<^verbatim>\<open>t.Add(d)\<close> moves an instant by the signed value of \<open>d\<close>
  and \<^verbatim>\<open>t.After(u)\<close> is the strict order. Every function that calls \<^verbatim>\<open>time.Now()\<close>
  takes the reading as the argument \<open>now\<close>.
\<close>

type_synonym time = int

type_synonym duration = "64 word"

definition Add :: "time \<Rightarrow> duration \<Rightarrow> time" where
  "Add t d = t + sint d"

definition After :: "time \<Rightarrow> time \<Rightarrow> bool" where
  "After t u \<longleftrightarrow> u < t"

record 'a withTTL =
  UpdatedAt :: time
  TTL :: "duration option"
  Value_ttl :: 'a

text \<open>
  The storage holds values of type \<^verbatim>\<open>any\<close>. \<open>Entry\<close> is a value whose dynamic type is
  \<^verbatim>\<open>withTTL[T]\<close>, \<open>Other\<close> a value of any other dynamic type: the type assertion
  \<^verbatim>\<open>value.(withTTL[T])\<close> succeeds on the first and fails on the second.
\<close>

datatype ('a, 'x) raw = Entry "'a withTTL" | Other 'x

text \<open>
  The storage operations the cache calls: \<^verbatim>\<open>Load\<close>, \<^verbatim>\<open>Store\<close>, \<^verbatim>\<open>Delete\<close> of
  \<^verbatim>\<open>sync.Map\<close> in package inmem; \<^verbatim>\<open>Get\<close>, \<^verbatim>\<open>Add\<close>, \<^verbatim>\<open>Remove\<close> of the ARC cache in
  package lru, whose code is outside the repository and whose lookups reorder its
  internal queues, so a lookup returns the storage as well. The two packages have the
  same text apart from these three calls, and the model takes them as the parameter \<open>B\<close>.
\<close>

record ('s, 'r) backend =
  Load :: "string \<Rightarrow> 's \<Rightarrow> 'r option \<times> 's"
  Store :: "string \<Rightarrow> 'r \<Rightarrow> 's \<Rightarrow> 's"
  Delete :: "string \<Rightarrow> 's \<Rightarrow> 's"

text \<open>\<^verbatim>\<open>sync.Map\<close>, the storage of package inmem, as a finite map.\<close>

definition syncMap :: "(string \<rightharpoonup> 'r, 'r) backend" where
  "syncMap =
     \<lparr>Load = (\<lambda>key m. (m key, m)),
      Store = (\<lambda>key v m. m(key \<mapsto> v)),
      Delete = (\<lambda>key m. m(key := None))\<rparr>"

text \<open>
  What the facade needs of a storage: a stored value is loaded back, and a deleted key
  is not loaded.
\<close>

definition load_after_store :: "('s, 'r) backend \<Rightarrow> bool" where
  "load_after_store B \<longleftrightarrow> (\<forall>s key v. fst (Load B key (Store B key v s)) = Some v)"

definition load_after_delete :: "('s, 'r) backend \<Rightarrow> bool" where
  "load_after_delete B \<longleftrightarrow> (\<forall>s key. fst (Load B key (Delete B key s)) = None)"

section \<open>Channels and the wait registry\<close>

text \<open>
  An unbuffered channel is represented by its state: open or closed. A receive on a
  closed channel returns the zero value at once; on an open channel it waits for a
  sender. A send on a closed channel panics; on an open channel it waits for a receiver,
  and \<open>Sent\<close> is the hand-over to one.
\<close>

datatype chan = Chan (closed: bool)

definition make_chan :: chan where
  "make_chan = Chan False"

definition close_chan :: "chan \<Rightarrow> chan" where
  "close_chan ch = Chan True"

datatype send_result = Sent | SendPanics | SendBlocks

definition recv :: "chan \<Rightarrow> ('a::zero \<times> error option) option" where
  "recv ch = (if closed ch then Some (0, None) else None)"

definition send :: "chan \<Rightarrow> 'a \<times> error option \<Rightarrow> send_result" where
  "send ch v = (if closed ch then SendPanics else SendBlocks)"

text \<open>
  \<^verbatim>\<open>rwQueue\<close> is a \<^verbatim>\<open>sync.Map\<close> that only \<^verbatim>\<open>GetOrFetch\<close> writes, and it stores channels of
  \<^verbatim>\<open>getOrFetchResult[T]\<close> only, so the type assertion on a loaded value succeeds.
\<close>

definition LoadOrStore :: "(string \<rightharpoonup> chan) \<Rightarrow> string \<Rightarrow> chan \<Rightarrow> (chan \<times> bool) \<times> (string \<rightharpoonup> chan)" where
  "LoadOrStore m key v =
     (case m key of
        Some actual \<Rightarrow> ((actual, True), m)
      | None \<Rightarrow> ((v, False), m(key \<mapsto> v)))"

section \<open>The cache facade (packages inmem and lru)\<close>

record 's Cache =
  storage :: 's
  rwQueue :: "string \<rightharpoonup> chan"
  defaultTTL :: "duration option"

definition NewCache :: "(string \<rightharpoonup> 'r) Cache" where
  "NewCache = \<lparr>storage = Map.empty, rwQueue = Map.empty, defaultTTL = None\<rparr>"

definition WithTTL :: "'s Cache \<Rightarrow> duration \<Rightarrow> 's Cache" where
  "WithTTL c ttl = c\<lparr>defaultTTL := Some ttl\<rparr>"

definition delete :: "('s, 'r) backend \<Rightarrow> 's Cache \<Rightarrow> string \<Rightarrow> 's Cache" where
  "delete B c key = c\<lparr>storage := Delete B key (storage c)\<rparr>"

text \<open>
  \<^verbatim>\<open>get\<close> returns the pair \<open>(T, error)\<close> of the source, \<open>0\<close> being \<^verbatim>\<open>*new(T)\<close>, and the
  cache after the call.
\<close>

definition get ::
  "('s, ('a::zero, 'x) raw) backend \<Rightarrow> 's Cache \<Rightarrow> string \<Rightarrow> time \<Rightarrow> ('a \<times> error option) \<times> 's Cache" where
  "get B c key now =
     (case Load B key (storage c) of
        (None, s) \<Rightarrow> ((0, Some (NewMissingEntryError key)), c\<lparr>storage := s\<rparr>)
      | (Some (Other x), s) \<Rightarrow>
          ((0, Some (NewFailedToCastEntryError key None)), delete B (c\<lparr>storage := s\<rparr>) key)
      | (Some (Entry casted), s) \<Rightarrow>
          (case TTL casted of
             None \<Rightarrow> ((Value_ttl casted, None), c\<lparr>storage := s\<rparr>)
           | Some ttl \<Rightarrow>
               if After (Add (UpdatedAt casted) ttl) now
               then ((Value_ttl casted, None), c\<lparr>storage := s\<rparr>)
               else ((0, Some (NewMissingEntryError key)), delete B (c\<lparr>storage := s\<rparr>) key)))"

text \<open>\<^verbatim>\<open>set\<close>: an explicit \<open>ttl\<close> replaces the default one; \<open>now\<close> becomes \<open>UpdatedAt\<close>.\<close>

definition set_c ::
  "('s, ('a, 'x) raw) backend \<Rightarrow> 's Cache \<Rightarrow> string \<Rightarrow> 'a \<Rightarrow> duration option \<Rightarrow> time \<Rightarrow> 's Cache" where
  "set_c B c key v ttl now =
     (let finalTTL = (case ttl of None \<Rightarrow> defaultTTL c | Some t \<Rightarrow> Some t)
      in c\<lparr>storage :=
            Store B key (Entry \<lparr>UpdatedAt = now, TTL = finalTTL, Value_ttl = v\<rparr>) (storage c)\<rparr>)"

definition Get ::
  "('s, ('a::zero, 'x) raw) backend \<Rightarrow> 's Cache \<Rightarrow> string \<Rightarrow> time \<Rightarrow> ('a \<times> error option) \<times> 's Cache" where
  "Get B c key now = get B c key now"

definition Set ::
  "('s, ('a, 'x) raw) backend \<Rightarrow> 's Cache \<Rightarrow> string \<Rightarrow> 'a \<Rightarrow> time \<Rightarrow> error option \<times> 's Cache" where
  "Set B c key v now = (None, set_c B c key v None now)"

definition SetWithTTL ::
  "('s, ('a, 'x) raw) backend \<Rightarrow> 's Cache \<Rightarrow> string \<Rightarrow> 'a \<Rightarrow> duration \<Rightarrow> time \<Rightarrow> error option \<times> 's Cache" where
  "SetWithTTL B c key v ttl now = (None, set_c B c key v (Some ttl) now)"

text \<open>
  \<^verbatim>\<open>GetMulti\<close>: the loop over \<open>keys\<close>, appending an item after each \<open>get\<close> without
  error. Each iteration may read the clock; \<open>clk i\<close> is the reading of iteration \<open>i\<close>.
\<close>

fun GetMulti_loop ::
  "('s, ('a::zero, 'x) raw) backend \<Rightarrow> (nat \<Rightarrow> time) \<Rightarrow> nat \<Rightarrow> 's Cache \<Rightarrow> string list \<Rightarrow>
   'a StorageItemMulti list \<Rightarrow> 'a StorageItemMulti list \<times> 's Cache" where
  "GetMulti_loop B clk i c [] res = (res, c)"
| "GetMulti_loop B clk i c (key # keys) res =
     (case get B c key (clk i) of
        ((val, Some err), c') \<Rightarrow> GetMulti_loop B clk (Suc i) c' keys res
      | ((val, None), c') \<Rightarrow>
          GetMulti_loop B clk (Suc i) c' keys (res @ [\<lparr>Key = key, Value = val\<rparr>]))"

definition GetMulti ::
  "('s, ('a::zero, 'x) raw) backend \<Rightarrow> (nat \<Rightarrow> time) \<Rightarrow> 's Cache \<Rightarrow> string list \<Rightarrow>
   ('a StorageItemMulti list \<times> error option) \<times> 's Cache" where
  "GetMulti B clk c keys =
     (case GetMulti_loop B clk 0 c keys [] of (res, c') \<Rightarrow> ((res, None), c'))"

text \<open>
  The outcomes of the successive \<open>get\<close> calls that the loop of \<^verbatim>\<open>GetMulti\<close> makes, each
  on the cache its predecessors left. It is used to state what \<^verbatim>\<open>GetMulti\<close> returns.
\<close>

fun lookups ::
  "('s, ('a::zero, 'x) raw) backend \<Rightarrow> (nat \<Rightarrow> time) \<Rightarrow> nat \<Rightarrow> 's Cache \<Rightarrow> string list \<Rightarrow>
   ('a \<times> error option) list" where
  "lookups B clk i c [] = []"
| "lookups B clk i c (key # keys) =
     (case get B c key (clk i) of (r, c') \<Rightarrow> r # lookups B clk (Suc i) c' keys)"

subsection \<open>GetOrFetch\<close>

text \<open>
  A call ends by returning its pair, by a panic, or never (it waits on a channel for
  good). The fetcher is a computation on the world outside the cache: it takes the world
  \<open>w\<close> and gives its pair and the world after it, so that a call of the fetcher is
  visible in the world that \<^verbatim>\<open>GetOrFetch\<close> leaves.
\<close>

datatype 'a outcome = Returned 'a "error option" | Panicked string | Blocked

type_synonym ('a, 'w) fetcher = "'w \<Rightarrow> ('a \<times> error option) \<times> 'w"

text \<open>A fetcher that returns a fixed pair and counts its invocations in the world.\<close>

definition counting :: "'a \<times> error option \<Rightarrow> ('a, nat) fetcher" where
  "counting r n = (r, Suc n)"

text \<open>
  \<^verbatim>\<open>GetOrFetch\<close>, one call run alone from its first to its last statement. The
  deferred \<^verbatim>\<open>rwQueue.Delete\<close> is registered after the send, so only the path through
  the send runs it.
\<close>

definition GetOrFetch ::
  "('s, ('a::zero, 'x) raw) backend \<Rightarrow> 's Cache \<Rightarrow> string \<Rightarrow> ('a, 'w) fetcher \<Rightarrow> time \<Rightarrow> 'w \<Rightarrow>
   'a outcome \<times> 's Cache \<times> 'w" where
  "GetOrFetch B c key fetcher now w =
     (let done = close_chan make_chan in
      case LoadOrStore (rwQueue c) key done of
        ((lock, loaded), q) \<Rightarrow>
          if loaded then
            (case recv lock of
               Some (res, err) \<Rightarrow> (Returned res err, c\<lparr>rwQueue := q\<rparr>, w)
             | None \<Rightarrow> (Blocked, c\<lparr>rwQueue := q\<rparr>, w))
          else
            (case get B (c\<lparr>rwQueue := q\<rparr>) key now of
               ((result, None), c') \<Rightarrow> (Returned result None, c', w)
             | ((result, Some err), c') \<Rightarrow>
                 if \<not> errors_As_MissingEntryError err then (Returned result (Some err), c', w)
                 else
                   (case fetcher w of
                      ((result', err'), w') \<Rightarrow>
                        (case send done (result', err') of
                           SendPanics \<Rightarrow> (Panicked ''send on closed channel'', c', w')
                         | SendBlocks \<Rightarrow> (Blocked, c', w')
                         | Sent \<Rightarrow>
                             (Returned result' err',
                              c'\<lparr>rwQueue := (rwQueue c')(key := None)\<rparr>, w')))))"

subsection \<open>Concurrent callers of GetOrFetch\<close>

text \<open>
  Several goroutines inside \<^verbatim>\<open>GetOrFetch\<close> for one key, with one fetcher. Each is at one
  of the points below; a step is the next action of one goroutine on the shared cache
  and world: the \<^verbatim>\<open>LoadOrStore\<close>, the receive, the call of \<open>get\<close>, the call of the
  fetcher, the send. A goroutine that waits on a channel stays where it is.
\<close>

datatype 'a pc =
    Start
  | Follower chan
  | Leader chan
  | Fetching chan
  | Publishing chan 'a "error option"
  | Finished "'a outcome"

definition step ::
  "('s, ('a::zero, 'x) raw) backend \<Rightarrow> string \<Rightarrow> ('a, 'w) fetcher \<Rightarrow> time \<Rightarrow>
   'a pc \<times> 's Cache \<times> 'w \<Rightarrow> 'a pc \<times> 's Cache \<times> 'w" where
  "step B key fetcher now cfg =
     (case cfg of (p, c, w) \<Rightarrow>
        (case p of
           Start \<Rightarrow>
             (let done = close_chan make_chan in
              case LoadOrStore (rwQueue c) key done of
                ((lock, loaded), q) \<Rightarrow>
                  ((if loaded then Follower lock else Leader done), c\<lparr>rwQueue := q\<rparr>, w))
         | Follower lock \<Rightarrow>
             (case recv lock of
                Some (res, err) \<Rightarrow> (Finished (Returned res err), c, w)
              | None \<Rightarrow> (Follower lock, c, w))
         | Leader done \<Rightarrow>
             (case get B c key now of
                ((result, None), c') \<Rightarrow> (Finished (Returned result None), c', w)
              | ((result, Some err), c') \<Rightarrow>
                  if \<not> errors_As_MissingEntryError err
                  then (Finished (Returned result (Some err)), c', w)
                  else (Fetching done, c', w))
         | Fetching done \<Rightarrow>
             (case fetcher w of ((result, err), w') \<Rightarrow> (Publishing done result err, c, w'))
         | Publishing done result err \<Rightarrow>
             (case send done (result, err) of
                SendPanics \<Rightarrow> (Finished (Panicked ''send on closed channel''), c, w)
              | SendBlocks \<Rightarrow> (Publishing done result err, c, w)
              | Sent \<Rightarrow>
                  (Finished (Returned result err), c\<lparr>rwQueue := (rwQueue c)(key := None)\<rparr>, w))
         | Finished out \<Rightarrow> (Finished out, c, w)))"

record ('a, 's, 'w) system =
  callers :: "'a pc list"
  shared :: "'s Cache"
  world :: 'w

text \<open>One step of caller \<open>i\<close>; a schedule is the list of the callers that step, in order.\<close>

definition sched_step ::
  "('s, ('a::zero, 'x) raw) backend \<Rightarrow> string \<Rightarrow> ('a, 'w) fetcher \<Rightarrow> time \<Rightarrow> nat \<Rightarrow>
   ('a, 's, 'w) system \<Rightarrow> ('a, 's, 'w) system" where
  "sched_step B key fetcher now i sys =
     (if i < length (callers sys) then
        (case step B key fetcher now (callers sys ! i, shared sys, world sys) of
           (p', c', w') \<Rightarrow> \<lparr>callers = (callers sys)[i := p'], shared = c', world = w'\<rparr>)
      else sys)"

definition run ::
  "('s, ('a::zero, 'x) raw) backend \<Rightarrow> string \<Rightarrow> ('a, 'w) fetcher \<Rightarrow> time \<Rightarrow> nat list \<Rightarrow>
   ('a, 's, 'w) system \<Rightarrow> ('a, 's, 'w) system" where
  "run B key fetcher now schedule sys = fold (sched_step B key fetcher now) schedule sys"

section \<open>Properties of AsMap\<close>

lemma AsMap_loop_lookup:
  "AsMap_loop m0 xs k =
     (if k \<in> Key ` set xs then Some (Value (last (filter (\<lambda>x. Key x = k) xs))) else m0 k)"
proof (induction xs arbitrary: m0)
  case Nil
  show ?case by simp
next
  case (Cons x xs)
  show ?case
  proof (cases "k \<in> Key ` set xs")
    case True
    then have "filter (\<lambda>y. Key y = k) xs \<noteq> []"
      by (auto simp: filter_empty_conv)
    with True show ?thesis by (simp add: Cons.IH)
  next
    case False
    then have "filter (\<lambda>y. Key y = k) xs = []"
      by (auto simp: filter_empty_conv)
    with False show ?thesis by (auto simp: Cons.IH)
  qed
qed

text \<open>
  Claim C10. For every slice \<open>xs\<close>, the key set of \<open>AsMap xs\<close> is exactly the set of keys
  occurring in \<open>xs\<close>, and each such key is mapped to the \<open>Value\<close> of the last element of
  \<open>xs\<close> bearing that key; every other key is absent.
\<close>

theorem AsMap_last_wins:
  "dom (AsMap xs) = Key ` set xs \<and>
   AsMap xs k =
     (if k \<in> Key ` set xs then Some (Value (last (filter (\<lambda>x. Key x = k) xs))) else None)"
proof -
  have look: "AsMap xs k' =
      (if k' \<in> Key ` set xs then Some (Value (last (filter (\<lambda>x. Key x = k') xs))) else None)"
    for k'
    unfolding AsMap_def by (simp add: AsMap_loop_lookup)
  have "dom (AsMap xs) = Key ` set xs"
  proof (rule set_eqI)
    fix k'
    show "k' \<in> dom (AsMap xs) \<longleftrightarrow> k' \<in> Key ` set xs"
      using look [of k'] by (simp add: dom_def)
  qed
  with look [of k] show ?thesis by simp
qed

section \<open>The backend check: get\<close>

text \<open>\<open>get\<close> passes the wait registry through unchanged.\<close>

lemma get_rwQueue_update:
  "get B (c\<lparr>rwQueue := q\<rparr>) key now =
     (fst (get B c key now), (snd (get B c key now))\<lparr>rwQueue := q\<rparr>)"
  by (simp add: get_def delete_def split: prod.splits option.splits raw.splits)

lemma get_keeps_rwQueue: "rwQueue (snd (get B c key now)) = rwQueue c"
  by (simp add: get_def delete_def split: prod.splits option.splits raw.splits)

text \<open>\<open>get\<close> fails with one of two errors only, both for the key it was asked for.\<close>

lemma get_error_cases:
  "snd (fst (get B c key now)) = None \<or>
   snd (fst (get B c key now)) = Some (MissingEntryError key) \<or>
   snd (fst (get B c key now)) = Some (FailedToCastEntryError key None)"
  by (simp add: get_def NewMissingEntryError_def NewFailedToCastEntryError_def
      split: prod.splits option.splits raw.splits)

text \<open>\<^verbatim>\<open>sync.Map\<close> meets both requirements on a storage.\<close>

lemma syncMap_load_after_store: "load_after_store syncMap"
  by (simp add: load_after_store_def syncMap_def)

lemma syncMap_load_after_delete: "load_after_delete syncMap"
  by (simp add: load_after_delete_def syncMap_def)

text \<open>The definitions that evaluate a call on a concrete cache.\<close>

lemmas eval_defs =
  GetOrFetch_def LoadOrStore_def NewCache_def close_chan_def make_chan_def get_def set_c_def
  delete_def syncMap_def NewMissingEntryError_def NewFailedToCastEntryError_def counting_def
  send_def recv_def Add_def After_def

text \<open>
  Claim C6. A key is written at time \<open>t0\<close> with ttl \<open>d\<close> (given to \<open>set\<close>, or the
  default ttl when none is given). At every \<open>now\<close> before \<open>t0 + d\<close>, \<open>get\<close> returns the
  stored value; at every \<open>now\<close> from \<open>t0 + d\<close> on, \<open>get\<close> fails with
  \<open>MissingEntryError\<close> for the key and deletes the entry, so that the storage no longer
  loads the key. It holds for every storage that loads what was stored and does not
  load what was deleted.
\<close>

theorem get_ttl_expiry:
  assumes las: "load_after_store B" and lad: "load_after_delete B"
    and ttl: "ttl = Some d \<or> (ttl = None \<and> defaultTTL c = Some d)"
  shows "(now < t0 + sint d \<longrightarrow>
            fst (get B (set_c B c key v ttl t0) key now) = (v, None)) \<and>
         (t0 + sint d \<le> now \<longrightarrow>
            fst (get B (set_c B c key v ttl t0) key now) = (0, Some (MissingEntryError key)) \<and>
            fst (Load B key (storage (snd (get B (set_c B c key v ttl t0) key now)))) = None)"
proof -
  let ?e = "\<lparr>UpdatedAt = t0, TTL = Some d, Value_ttl = v\<rparr>"
  let ?c1 = "set_c B c key v ttl t0"
  have st: "storage ?c1 = Store B key (Entry ?e) (storage c)"
    using ttl by (auto simp: set_c_def)
  have "fst (Load B key (storage ?c1)) = Some (Entry ?e)"
    using las by (simp add: st load_after_store_def)
  then obtain s where ld: "Load B key (storage ?c1) = (Some (Entry ?e), s)"
    by (cases "Load B key (storage ?c1)") simp
  have del: "fst (Load B key (Delete B key s')) = None" for s'
    using lad by (simp add: load_after_delete_def)
  show ?thesis
    by (simp add: get_def ld Add_def After_def delete_def del NewMissingEntryError_def not_less)
qed

text \<open>
  The scenario of the specification on \<^verbatim>\<open>sync.Map\<close>: written at 0 with ttl 100, read at
  50 and at 150.
\<close>

theorem get_ttl_expiry_witness:
  "load_after_store (syncMap :: (string \<rightharpoonup> (nat, unit) raw, (nat, unit) raw) backend) \<and>
   load_after_delete (syncMap :: (string \<rightharpoonup> (nat, unit) raw, (nat, unit) raw) backend) \<and>
   (50::int) < 0 + sint (100 :: 64 word) \<and>
   fst (get syncMap (set_c syncMap (NewCache :: (string \<rightharpoonup> (nat, unit) raw) Cache) ''user:1'' 7 (Some 100) 0) ''user:1'' 50) = (7, None) \<and>
   (0::int) + sint (100 :: 64 word) \<le> 150 \<and>
   fst (get syncMap (set_c syncMap (NewCache :: (string \<rightharpoonup> (nat, unit) raw) Cache) ''user:1'' 7 (Some 100) 0) ''user:1'' 150) = (0, Some (MissingEntryError ''user:1'')) \<and>
   fst (Load syncMap ''user:1'' (storage (snd (get syncMap (set_c syncMap (NewCache :: (string \<rightharpoonup> (nat, unit) raw) Cache) ''user:1'' 7 (Some 100) 0) ''user:1'' 150)))) = None"
proof -
  have s: "load_after_store (syncMap :: (string \<rightharpoonup> (nat, unit) raw, (nat, unit) raw) backend)"
    by (simp add: load_after_store_def syncMap_def)
  have d: "load_after_delete (syncMap :: (string \<rightharpoonup> (nat, unit) raw, (nat, unit) raw) backend)"
    by (simp add: load_after_delete_def syncMap_def)
  have t: "Some (100 :: 64 word) = Some 100 \<or>
           (Some (100 :: 64 word) = None \<and> defaultTTL (NewCache :: (string \<rightharpoonup> (nat, unit) raw) Cache) = Some 100)"
    by simp
  show ?thesis
    using s d get_ttl_expiry [OF s d t, of 50 0 "''user:1''" 7]
      get_ttl_expiry [OF s d t, of 150 0 "''user:1''" 7]
    by simp
qed

text \<open>
  Claim C7. When the storage holds under the key a value that is not a \<^verbatim>\<open>withTTL[T]\<close>,
  \<open>get\<close> fails with \<open>FailedToCastEntryError\<close> for the key (without cause) and deletes
  the entry: the storage does not load the key afterwards.
\<close>

theorem get_cast_failure_self_heals:
  assumes lad: "load_after_delete B"
    and ld: "fst (Load B key (storage c)) = Some (Other x)"
  shows "fst (get B c key now) = (0, Some (FailedToCastEntryError key None)) \<and>
         fst (Load B key (storage (snd (get B c key now)))) = None"
proof -
  obtain s where "Load B key (storage c) = (Some (Other x), s)"
    using ld by (cases "Load B key (storage c)") simp
  moreover have "fst (Load B key (Delete B key s')) = None" for s'
    using lad by (simp add: load_after_delete_def)
  ultimately show ?thesis
    by (simp add: get_def delete_def NewFailedToCastEntryError_def)
qed

text \<open>A value of another type under \<open>''k''\<close> in \<^verbatim>\<open>sync.Map\<close>.\<close>

theorem get_cast_failure_self_heals_witness:
  "load_after_delete (syncMap :: (string \<rightharpoonup> (nat, bool) raw, (nat, bool) raw) backend) \<and>
   fst (Load syncMap ''k'' (storage \<lparr>storage = [''k'' \<mapsto> (Other True :: (nat, bool) raw)], rwQueue = Map.empty, defaultTTL = None\<rparr>)) = Some (Other True) \<and>
   fst (get syncMap \<lparr>storage = [''k'' \<mapsto> (Other True :: (nat, bool) raw)], rwQueue = Map.empty, defaultTTL = None\<rparr> ''k'' 5)
     = (0, Some (FailedToCastEntryError ''k'' None)) \<and>
   fst (Load syncMap ''k'' (storage (snd (get syncMap \<lparr>storage = [''k'' \<mapsto> (Other True :: (nat, bool) raw)], rwQueue = Map.empty, defaultTTL = None\<rparr> ''k'' 5)))) = None"
proof -
  have d: "load_after_delete (syncMap :: (string \<rightharpoonup> (nat, bool) raw, (nat, bool) raw) backend)"
    by (simp add: load_after_delete_def syncMap_def)
  have l: "fst (Load syncMap ''k'' (storage \<lparr>storage = [''k'' \<mapsto> (Other True :: (nat, bool) raw)], rwQueue = Map.empty, defaultTTL = None\<rparr>)) = Some (Other True)"
    by (simp add: syncMap_def)
  show ?thesis
    using d l get_cast_failure_self_heals [OF d l, of 5] by simp
qed

section \<open>GetOrFetch, one caller\<close>

text \<open>
  A caller that finds a channel in the registry receives on it and returns what it
  received, without looking at the storage and without calling the fetcher.
\<close>

lemma GetOrFetch_follower:
  assumes "rwQueue c key = Some lock"
  shows "GetOrFetch B c key fetcher now w =
     (case recv lock of Some (res, err) \<Rightarrow> (Returned res err, c, w) | None \<Rightarrow> (Blocked, c, w))"
  using assms by (simp add: GetOrFetch_def LoadOrStore_def split: option.splits)

text \<open>
  A caller that finds no channel stores its own, closed one, and checks the storage.
  The registry keeps the channel on each of the three paths: the two early returns leave
  before the deferred delete is registered, and the send on the closed channel panics
  before it.
\<close>

lemma GetOrFetch_leader:
  assumes "rwQueue c key = None"
  shows "GetOrFetch B c key fetcher now w =
     (case get B c key now of
        ((result, None), c') \<Rightarrow> (Returned result None, c'\<lparr>rwQueue := (rwQueue c)(key \<mapsto> Chan True)\<rparr>, w)
      | ((result, Some err), c') \<Rightarrow>
          if err = MissingEntryError key
          then (Panicked ''send on closed channel'', c'\<lparr>rwQueue := (rwQueue c)(key \<mapsto> Chan True)\<rparr>,
                snd (fetcher w))
          else (Returned result (Some err), c'\<lparr>rwQueue := (rwQueue c)(key \<mapsto> Chan True)\<rparr>, w))"
proof -
  obtain r c' where g: "get B c key now = (r, c')" by (cases "get B c key now")
  obtain result e where r: "r = (result, e)" by (cases r)
  have e: "e = None \<or> e = Some (MissingEntryError key) \<or> e = Some (FailedToCastEntryError key None)"
    using get_error_cases [of B c key now] g r by simp
  show ?thesis
    using assms e
    by (auto simp: GetOrFetch_def LoadOrStore_def close_chan_def send_def g r get_rwQueue_update
        split: prod.splits)
qed

lemma GetOrFetch_leader_keeps_entry:
  assumes "rwQueue c key = None"
  shows "rwQueue (fst (snd (GetOrFetch B c key fetcher now w))) key = Some (Chan True)"
  by (simp add: GetOrFetch_leader [OF assms] split: prod.splits option.splits)

text \<open>\<^verbatim>\<open>GetOrFetch\<close> has no call of \<open>set\<close>: on \<^verbatim>\<open>sync.Map\<close> it adds or changes no entry.\<close>

lemma GetOrFetch_never_stores:
  "storage (fst (snd (GetOrFetch syncMap c key fetcher now w))) k = storage c k \<or>
   storage (fst (snd (GetOrFetch syncMap c key fetcher now w))) k = None"
proof (cases "rwQueue c key")
  case None
  have "storage (snd (get syncMap c key now)) k = storage c k \<or>
        storage (snd (get syncMap c key now)) k = None"
    by (simp add: get_def syncMap_def delete_def split: option.splits raw.splits)
  moreover have "storage (fst (snd (GetOrFetch syncMap c key fetcher now w))) =
        storage (snd (get syncMap c key now))"
    by (cases "get syncMap c key now")
       (auto simp: GetOrFetch_leader [OF None] split: option.splits)
  ultimately show ?thesis by simp
next
  case (Some lock)
  then show ?thesis
    by (simp add: GetOrFetch_follower split: prod.splits option.splits)
qed

text \<open>
  Claim C2. On a key that the storage does not hold, a single caller of \<^verbatim>\<open>GetOrFetch\<close>
  should call the fetcher once and return the fetcher's pair. On the empty cache, with a
  fetcher that returns \<open>(42, nil)\<close> and counts its calls, the fetcher is called once
  (the count goes from 0 to 1) and the call then panics in the send on the channel it
  closed at its start; it returns nothing.
\<close>

theorem GetOrFetch_missing_key_panics:
  "GetOrFetch syncMap (NewCache :: (string \<rightharpoonup> (nat, unit) raw) Cache) ''k'' (counting (42, None)) 0 0 =
     (Panicked ''send on closed channel'',
      \<lparr>storage = Map.empty, rwQueue = [''k'' \<mapsto> Chan True], defaultTTL = None\<rparr>,
      1)"
  by (simp add: eval_defs)

text \<open>
  Claim C3. After \<^verbatim>\<open>GetOrFetch\<close> has fetched a value with nil error for a missing key,
  the value should be in the storage under the key, with the default ttl. On the empty
  cache with default ttl 100 and a fetcher that returns \<open>(42, nil)\<close>, the call panics,
  the storage holds nothing under the key after it, and a following \<open>get\<close> of the key
  fails with \<open>MissingEntryError\<close>.
\<close>

theorem GetOrFetch_fetched_value_not_stored:
  "fst (GetOrFetch syncMap (WithTTL (NewCache :: (string \<rightharpoonup> (nat, unit) raw) Cache) 100) ''k'' (counting (42, None)) 0 0)
     = Panicked ''send on closed channel'' \<and>
   storage (fst (snd (GetOrFetch syncMap (WithTTL (NewCache :: (string \<rightharpoonup> (nat, unit) raw) Cache) 100) ''k'' (counting (42, None)) 0 0))) ''k''
     = None \<and>
   fst (get syncMap (fst (snd (GetOrFetch syncMap (WithTTL (NewCache :: (string \<rightharpoonup> (nat, unit) raw) Cache) 100) ''k'' (counting (42, None)) 0 0))) ''k'' 1)
     = (0, Some (MissingEntryError ''k''))"
  by (simp add: eval_defs WithTTL_def)

text \<open>
  Claim C4. When the caller that claimed the key returns, the registry entry of the key
  should be gone. On the two early returns (the storage holds a live value; the storage
  holds a value of another type) the call returns and the registry still holds the closed
  channel under the key.
\<close>

theorem GetOrFetch_leaves_registry_entry:
  "GetOrFetch syncMap
     \<lparr>storage = [''k'' \<mapsto> (Entry \<lparr>UpdatedAt = 0, TTL = None, Value_ttl = 42\<rparr> :: (nat, bool) raw)],
      rwQueue = Map.empty, defaultTTL = None\<rparr> ''k'' (counting (7, None)) 1 0 =
     (Returned 42 None,
      \<lparr>storage = [''k'' \<mapsto> Entry \<lparr>UpdatedAt = 0, TTL = None, Value_ttl = 42\<rparr>],
       rwQueue = [''k'' \<mapsto> Chan True], defaultTTL = None\<rparr>,
      0) \<and>
   GetOrFetch syncMap
     \<lparr>storage = [''k'' \<mapsto> (Other True :: (nat, bool) raw)],
      rwQueue = Map.empty, defaultTTL = None\<rparr> ''k'' (counting (7, None)) 1 0 =
     (Returned 0 (Some (FailedToCastEntryError ''k'' None)),
      \<lparr>storage = Map.empty, rwQueue = [''k'' \<mapsto> Chan True], defaultTTL = None\<rparr>,
      0)"
  by (simp add: eval_defs)

text \<open>
  Claim C5, as stated: on a key that holds a live entry, \<^verbatim>\<open>GetOrFetch\<close> returns the
  cached value with no registry interaction. The key \<open>''k''\<close> holds the live value 42.
  The first call returns 42 and has written the registry, which now holds a channel
  under the key. In the cache that this call leaves the key is still live, and the next
  call returns the zero value with nil error, not 42: it receives on the closed channel
  it found in the registry.
\<close>

theorem GetOrFetch_live_key_counterexample:
  "fst (get syncMap (set_c syncMap (NewCache :: (string \<rightharpoonup> (nat, unit) raw) Cache) ''k'' 42 None 0) ''k'' 1) = (42, None) \<and>
   fst (snd (GetOrFetch syncMap (set_c syncMap (NewCache :: (string \<rightharpoonup> (nat, unit) raw) Cache) ''k'' 42 None 0) ''k'' (counting (7, None)) 1 0)) =
     \<lparr>storage = [''k'' \<mapsto> Entry \<lparr>UpdatedAt = 0, TTL = None, Value_ttl = 42\<rparr>],
      rwQueue = [''k'' \<mapsto> Chan True], defaultTTL = None\<rparr> \<and>
   rwQueue (fst (snd (GetOrFetch syncMap (set_c syncMap (NewCache :: (string \<rightharpoonup> (nat, unit) raw) Cache) ''k'' 42 None 0) ''k'' (counting (7, None)) 1 0)))
     \<noteq> rwQueue (set_c syncMap (NewCache :: (string \<rightharpoonup> (nat, unit) raw) Cache) ''k'' 42 None 0) \<and>
   fst (get syncMap \<lparr>storage = [''k'' \<mapsto> (Entry \<lparr>UpdatedAt = 0, TTL = None, Value_ttl = 42\<rparr> :: (nat, unit) raw)],
                     rwQueue = [''k'' \<mapsto> Chan True], defaultTTL = None\<rparr> ''k'' 2) = (42, None) \<and>
   fst (GetOrFetch syncMap \<lparr>storage = [''k'' \<mapsto> (Entry \<lparr>UpdatedAt = 0, TTL = None, Value_ttl = 42\<rparr> :: (nat, unit) raw)],
                     rwQueue = [''k'' \<mapsto> Chan True], defaultTTL = None\<rparr> ''k'' (counting (7, None)) 2 0)
     = Returned 0 None \<and>
   fst (GetOrFetch syncMap \<lparr>storage = [''k'' \<mapsto> (Entry \<lparr>UpdatedAt = 0, TTL = None, Value_ttl = 42\<rparr> :: (nat, unit) raw)],
                     rwQueue = [''k'' \<mapsto> Chan True], defaultTTL = None\<rparr> ''k'' (counting (7, None)) 2 0)
     \<noteq> Returned 42 None"
  by (simp add: eval_defs fun_eq_iff)

text \<open>
  Claim C5, amended. When the registry holds no channel under the key and the storage
  holds a live entry under it (no ttl, or \<open>now\<close> before \<open>UpdatedAt + ttl\<close>),
  \<^verbatim>\<open>GetOrFetch\<close> returns the value of the entry with nil error and does not call the
  fetcher: the world is the one the call started in, whatever the fetcher is.
\<close>

theorem GetOrFetch_live_key_unclaimed:
  assumes free: "rwQueue c key = None"
    and ld: "fst (Load B key (storage c)) = Some (Entry e)"
    and live: "(case TTL e of None \<Rightarrow> True | Some ttl \<Rightarrow> now < UpdatedAt e + sint ttl)"
  shows "fst (GetOrFetch B c key fetcher now w) = Returned (Value_ttl e) None \<and>
         snd (snd (GetOrFetch B c key fetcher now w)) = w"
proof -
  obtain s where "Load B key (storage c) = (Some (Entry e), s)"
    using ld by (cases "Load B key (storage c)") simp
  then have "fst (get B c key now) = (Value_ttl e, None)"
    using live by (auto simp: get_def Add_def After_def split: option.splits)
  then obtain c' where "get B c key now = ((Value_ttl e, None), c')"
    by (cases "get B c key now") simp
  then show ?thesis
    by (simp add: GetOrFetch_leader [OF free])
qed

text \<open>A live entry with ttl 100 written at 0, fetched at 50 with an empty registry.\<close>

theorem GetOrFetch_live_key_unclaimed_witness:
  "rwQueue (set_c syncMap (NewCache :: (string \<rightharpoonup> (nat, unit) raw) Cache) ''k'' 42 (Some 100) 0) ''k'' = None \<and>
   fst (Load syncMap ''k'' (storage (set_c syncMap (NewCache :: (string \<rightharpoonup> (nat, unit) raw) Cache) ''k'' 42 (Some 100) 0)))
     = Some (Entry \<lparr>UpdatedAt = 0, TTL = Some 100, Value_ttl = 42\<rparr>) \<and>
   (50::int) < 0 + sint (100 :: 64 word) \<and>
   fst (GetOrFetch syncMap (set_c syncMap (NewCache :: (string \<rightharpoonup> (nat, unit) raw) Cache) ''k'' 42 (Some 100) 0) ''k'' (counting (7, None)) 50 0)
     = Returned 42 None \<and>
   snd (snd (GetOrFetch syncMap (set_c syncMap (NewCache :: (string \<rightharpoonup> (nat, unit) raw) Cache) ''k'' 42 (Some 100) 0) ''k'' (counting (7, None)) 50 0)) = 0"
proof -
  let ?c = "set_c syncMap (NewCache :: (string \<rightharpoonup> (nat, unit) raw) Cache) ''k'' 42 (Some 100) 0"
  have f: "rwQueue ?c ''k'' = None"
    by (simp add: set_c_def NewCache_def)
  have l: "fst (Load syncMap ''k'' (storage ?c)) = Some (Entry \<lparr>UpdatedAt = 0, TTL = Some 100, Value_ttl = 42\<rparr>)"
    by (simp add: set_c_def NewCache_def syncMap_def)
  have v: "(case TTL \<lparr>UpdatedAt = 0, TTL = Some (100 :: 64 word), Value_ttl = 42 :: nat\<rparr> of None \<Rightarrow> True
            | Some ttl \<Rightarrow> (50::int) < UpdatedAt \<lparr>UpdatedAt = 0, TTL = Some (100 :: 64 word), Value_ttl = 42 :: nat\<rparr> + sint ttl)"
    by simp
  show ?thesis
    using f l GetOrFetch_live_key_unclaimed [OF f l v, of "counting (7, None)" 0] by simp
qed

text \<open>
  Claim C8. The fetcher is called, once, exactly when the caller claimed the key and the
  check of the storage gave \<open>MissingEntryError\<close>; otherwise the world is left as it
  was. Any other error of the check, \<open>FailedToCastEntryError\<close> in particular, is
  returned to the caller together with the value of the check.
\<close>

theorem GetOrFetch_fetches_only_on_missing:
  "snd (snd (GetOrFetch B c key fetcher now w)) =
     (if rwQueue c key = None \<and> snd (fst (get B c key now)) = Some (MissingEntryError key)
      then snd (fetcher w) else w) \<and>
   (rwQueue c key = None \<and> fst (get B c key now) = (result, Some e) \<and> e \<noteq> MissingEntryError key
      \<longrightarrow> fst (GetOrFetch B c key fetcher now w) = Returned result (Some e))"
proof (cases "rwQueue c key")
  case None
  then show ?thesis
    by (simp add: GetOrFetch_leader split: prod.splits option.splits)
next
  case (Some lock)
  then have "snd (snd (GetOrFetch B c key fetcher now w)) = w"
    by (simp add: GetOrFetch_follower split: option.splits prod.splits)
  with Some show ?thesis by simp
qed

text \<open>
  A value of another type under the key: the call returns \<open>FailedToCastEntryError\<close>
  and the counter of the fetcher stays at 0.
\<close>

theorem GetOrFetch_fetches_only_on_missing_witness:
  "rwQueue \<lparr>storage = [''k'' \<mapsto> (Other True :: (nat, bool) raw)], rwQueue = Map.empty, defaultTTL = None\<rparr> ''k'' = None \<and>
   fst (get syncMap \<lparr>storage = [''k'' \<mapsto> (Other True :: (nat, bool) raw)], rwQueue = Map.empty, defaultTTL = None\<rparr> ''k'' 5)
     = (0, Some (FailedToCastEntryError ''k'' None)) \<and>
   FailedToCastEntryError ''k'' None \<noteq> MissingEntryError ''k'' \<and>
   fst (GetOrFetch syncMap \<lparr>storage = [''k'' \<mapsto> (Other True :: (nat, bool) raw)], rwQueue = Map.empty, defaultTTL = None\<rparr> ''k'' (counting (42, None)) 5 0)
     = Returned 0 (Some (FailedToCastEntryError ''k'' None)) \<and>
   snd (snd (GetOrFetch syncMap \<lparr>storage = [''k'' \<mapsto> (Other True :: (nat, bool) raw)], rwQueue = Map.empty, defaultTTL = None\<rparr> ''k'' (counting (42, None)) 5 0)) = 0"
proof -
  have g: "fst (get syncMap \<lparr>storage = [''k'' \<mapsto> (Other True :: (nat, bool) raw)], rwQueue = Map.empty, defaultTTL = None\<rparr> ''k'' 5)
     = (0, Some (FailedToCastEntryError ''k'' None))"
    by (simp add: get_def syncMap_def delete_def NewFailedToCastEntryError_def)
  show ?thesis
    using g GetOrFetch_fetches_only_on_missing
      [of syncMap "\<lparr>storage = [''k'' \<mapsto> (Other True :: (nat, bool) raw)], rwQueue = Map.empty, defaultTTL = None\<rparr>"
          "''k''" "counting (42, None)" 5 0 0 "FailedToCastEntryError ''k'' None"]
    by simp
qed

section \<open>GetOrFetch, concurrent callers\<close>

text \<open>
  A caller that steps alone goes through at most four steps, and ends where
  \<^verbatim>\<open>GetOrFetch\<close> run as a whole ends.
\<close>

lemma funpow4: "(f ^^ 4) x = f (f (f (f x)))"
  by (simp add: numeral_Bit0 funpow_add)

lemma solo_run:
  fixes B :: "('s, ('a::zero, 'x) raw) backend"
  assumes "fst (GetOrFetch B c key fetcher now w) \<noteq> Blocked"
  shows "(step B key fetcher now ^^ 4) (Start, c, w) =
     (case GetOrFetch B c key fetcher now w of (out, c', w') \<Rightarrow> (Finished out, c', w'))"
proof (cases "rwQueue c key")
  case (Some lock)
  then have s1: "step B key fetcher now (Start, c, w) = (Follower lock, c, w)"
    by (simp add: step_def LoadOrStore_def Let_def)
  have "recv lock \<noteq> (None :: ('a \<times> error option) option)"
    using assms by (auto simp: GetOrFetch_follower [OF Some] split: option.splits)
  then obtain res :: 'a and err where r: "recv lock = Some (res, err)"
    by (cases "recv lock :: ('a \<times> error option) option") auto
  have s2: "step B key fetcher now (Follower lock, c, w) = (Finished (Returned res err), c, w)"
    by (simp add: step_def r)
  have s3: "step B key fetcher now (Finished out, c', w') = (Finished out, c', w')" for out c' w'
    by (simp add: step_def)
  show ?thesis
    by (simp add: funpow4 s1 s2 s3 GetOrFetch_follower [OF Some] r)
next
  case None
  let ?c1 = "c\<lparr>rwQueue := (rwQueue c)(key \<mapsto> Chan True)\<rparr>"
  have s1: "step B key fetcher now (Start, c, w) = (Leader (Chan True), ?c1, w)"
    using None by (simp add: step_def LoadOrStore_def close_chan_def Let_def)
  have s3: "step B key fetcher now (Finished out, c', w') = (Finished out, c', w')" for out c' w'
    by (simp add: step_def)
  obtain result e c' where g: "get B ?c1 key now = ((result, e), c')"
    by (cases "get B ?c1 key now") auto
  obtain r' w' where f: "fetcher w = (r', w')" by (cases "fetcher w")
  obtain result' err' where r': "r' = (result', err')" by (cases r')
  show ?thesis
  proof (cases e)
    case N: None
    have "step B key fetcher now (Leader (Chan True), ?c1, w) = (Finished (Returned result None), c', w)"
      by (simp add: step_def g N)
    then show ?thesis
      using None by (simp add: funpow4 s1 s3 GetOrFetch_def LoadOrStore_def close_chan_def g N)
  next
    case (Some err)
    show ?thesis
    proof (cases "errors_As_MissingEntryError err")
      case False
      have "step B key fetcher now (Leader (Chan True), ?c1, w) =
            (Finished (Returned result (Some err)), c', w)"
        by (simp add: step_def g Some False)
      then show ?thesis
        using None
        by (simp add: funpow4 s1 s3 GetOrFetch_def LoadOrStore_def close_chan_def g Some False)
    next
      case True
      have a: "step B key fetcher now (Leader (Chan True), ?c1, w) = (Fetching (Chan True), c', w)"
        by (simp add: step_def g Some True)
      have b: "step B key fetcher now (Fetching (Chan True), c', w) =
               (Publishing (Chan True) result' err', c', w')"
        by (simp add: step_def f r')
      have d: "step B key fetcher now (Publishing (Chan True) result' err', c', w') =
               (Finished (Panicked ''send on closed channel''), c', w')"
        by (simp add: step_def send_def)
      show ?thesis
        using None
        by (simp add: funpow4 s1 a b d GetOrFetch_def LoadOrStore_def close_chan_def g Some True
            f r' send_def)
    qed
  qed
qed

text \<open>
  Claim C1. Of N concurrent callers on a missing key, one should call the fetcher and all
  should receive its pair. Two callers on the empty cache, the fetcher returning
  \<open>(42, nil)\<close>: caller 0 claims the key; caller 1 finds the channel of caller 0, which is
  closed, receives the zero value from it and returns \<open>(0, nil)\<close>; caller 0 checks the
  storage, calls the fetcher and panics in its send. The fetcher ran once, and neither
  caller received \<open>(42, nil)\<close>.
\<close>

theorem concurrent_callers_not_deduplicated:
  "run syncMap ''k'' (counting (42, None)) 0 [0, 1, 1, 0, 0, 0]
     \<lparr>callers = [Start, Start], shared = (NewCache :: (string \<rightharpoonup> (nat, unit) raw) Cache), world = 0\<rparr> =
   \<lparr>callers = [Finished (Panicked ''send on closed channel''), Finished (Returned 0 None)],
    shared = \<lparr>storage = Map.empty, rwQueue = [''k'' \<mapsto> Chan True], defaultTTL = None\<rparr>,
    world = 1\<rparr>"
  by (simp add: run_def sched_step_def step_def eval_defs Let_def)

section \<open>GetMulti\<close>

lemma GetMulti_loop_items:
  "fst (GetMulti_loop B clk i c keys res) =
     res @ map (\<lambda>(key, r). \<lparr>Key = key, Value = fst r\<rparr>)
             (filter (\<lambda>(key, r). snd r = None) (zip keys (lookups B clk i c keys)))"
  by (induction keys arbitrary: i c res) (auto split: prod.splits option.splits)

lemma length_lookups: "length (lookups B clk i c keys) = length keys"
  by (induction keys arbitrary: i c) (auto split: prod.splits)

text \<open>
  Claim C9. \<^verbatim>\<open>GetMulti\<close> returns a nil error and, in the order of the request, one item
  \<open>(key, value)\<close> for each requested key whose \<open>get\<close> returned no error, and nothing
  for a key whose \<open>get\<close> failed; there is one \<open>get\<close> per requested key, so the result
  is at most as long as the request.
\<close>

theorem GetMulti_items:
  "fst (GetMulti B clk c keys) =
     (map (\<lambda>(key, r). \<lparr>Key = key, Value = fst r\<rparr>)
        (filter (\<lambda>(key, r). snd r = None) (zip keys (lookups B clk 0 c keys))), None) \<and>
   length (lookups B clk 0 c keys) = length keys \<and>
   length (fst (fst (GetMulti B clk c keys))) \<le> length keys"
proof -
  have items: "fst (fst (GetMulti B clk c keys)) =
     map (\<lambda>(key, r). \<lparr>Key = key, Value = fst r\<rparr>)
        (filter (\<lambda>(key, r). snd r = None) (zip keys (lookups B clk 0 c keys)))"
    using GetMulti_loop_items [of B clk 0 c keys "[]"]
    by (cases "GetMulti_loop B clk 0 c keys []") (simp add: GetMulti_def)
  have err: "snd (fst (GetMulti B clk c keys)) = None"
    by (simp add: GetMulti_def split: prod.splits)
  have "length (fst (fst (GetMulti B clk c keys))) \<le> length (zip keys (lookups B clk 0 c keys))"
    unfolding items by (simp only: length_map length_filter_le)
  then have "length (fst (fst (GetMulti B clk c keys))) \<le> length keys"
    by (simp add: length_lookups)
  with items err show ?thesis
    by (simp add: length_lookups prod_eq_iff)
qed

end
